theory Spec2Isabelle
  imports Complex_Main "HOL-Library.AList" "HOL-Library.Log_Nat"
begin

section \<open>spamprobe.py: a Bayesian spam filter\<close>

text \<open>
  A shallow embedding of \<^verbatim>\<open>src/spamprobe.py\<close>: the tokenizer \<^verbatim>\<open>_text_parse\<close>, the HTML
  handlers of \<^verbatim>\<open>_MyHTMLParser\<close>, the feature extractor \<^verbatim>\<open>_process_mail\<close>, the learner
  \<^verbatim>\<open>learn\<close>, the scorer \<^verbatim>\<open>probe\<close> and the subcommand \<^verbatim>\<open>cmd_cleanup\<close>.

  Conventions.
  \<^item> A Python \<^verbatim>\<open>str\<close> is a HOL \<open>string\<close>, one \<open>char\<close> per code point (code points below 256).
  \<^item> A Python \<^verbatim>\<open>int\<close> is an \<open>int\<close>.
  \<^item> A Python \<^verbatim>\<open>dict\<close> is an association list in insertion order with distinct keys:
    \<open>map_of\<close> reads it, \<open>AList.update\<close> writes it, \<open>map fst\<close> lists its keys.
  \<^item> A raised exception is a value: \<open>Inl e\<close> of a result \<open>error + 'a\<close>, or the outcome
    \<open>Raised e\<close> of a procedure that returns nothing; a procedure that mutates the two
    dictionaries returns them as they are when it returns or raises.
  \<^item> Printing (the \<^verbatim>\<open>logging\<close> flag) is left out: it changes no value.
\<close>

datatype error = NameError | TypeError | KeyError | ZeroDivisionError | OverflowError

datatype outcome = Returned | Raised error


subsection \<open>Names bound at module level\<close>

text \<open>
  The names the module binds before any of its functions runs: the imports (lines 33 to 42),
  the class and function definitions (lines 45 to 166) and, under
  \<^verbatim>\<open>if __name__ == '__main__'\<close>, the subcommands and the parser objects (lines 210 to 325).
  A call through a name that is bound neither here nor among Python's builtins raises
  NameError when the call is evaluated. The builtins hold neither \<^verbatim>\<open>today\<close> nor
  \<^verbatim>\<open>cleanup\<close>.
\<close>

definition module_globals :: "string list" where
  "module_globals =
     [''traceback'', ''shelve'', ''email'', ''default'', ''sys'', ''os'', ''datetime'', ''re'',
      ''argparse'', ''HTMLParser'',
      ''_MyHTMLParser'', ''_html_parse'', ''_today'', ''_text_parse'', ''_process_mail'',
      ''learn'', ''probe'',
      ''cmd_dump'', ''cmd_cleanup'', ''cmd_probe'', ''cmd_learn'', ''get_files'',
      ''ap'', ''subparsers'', ''ap1'', ''g'', ''ap2'', ''ap3'', ''ap4'', ''args'',
      ''words_db'', ''msg_db'']"

text \<open>
  \<^verbatim>\<open>_today()\<close> (line 74) returns the day ordinal of the current date; the clock is the
  parameter \<open>day\<close>. A call without arguments through another bound name does not give a
  day ordinal (none of them is a function of no argument); the model records it as TypeError.
\<close>

definition call_global0 :: "int \<Rightarrow> string \<Rightarrow> error + int" where
  "call_global0 day f =
     (if f = ''_today'' then Inr day
      else if f \<in> set module_globals then Inl TypeError
      else Inl NameError)"


subsection \<open>The tokenizer (lines 77 to 78)\<close>

text \<open>
  \<^verbatim>\<open>\w\<close> in a \<^verbatim>\<open>str\<close> pattern: the alphanumeric code points and the underscore. Below 256
  these are the digits, the ASCII letters, the underscore, and the Latin-1 letters and
  numeric characters.
\<close>

definition is_word :: "char \<Rightarrow> bool" where
  "is_word c =
     (let n = (of_char c :: nat)
      in (48 \<le> n \<and> n \<le> 57) \<or> (65 \<le> n \<and> n \<le> 90) \<or> n = 95 \<or> (97 \<le> n \<and> n \<le> 122) \<or>
         n = 170 \<or> n = 178 \<or> n = 179 \<or> n = 181 \<or> n = 185 \<or> n = 186 \<or>
         (188 \<le> n \<and> n \<le> 190) \<or> (192 \<le> n \<and> n \<le> 214) \<or> (216 \<le> n \<and> n \<le> 246) \<or>
         248 \<le> n)"

text \<open>
  \<^verbatim>\<open>re.split(pattern, s)\<close> for a pattern that matches the non-empty runs of the characters
  \<open>sep\<close> (here \<^verbatim>\<open>\W+\<close>): the leftmost match starts at the first separator and, the
  quantifier being greedy, takes the whole run; the piece before it is emitted and the
  search goes on behind the run. The rest of the string is the last piece. Pieces at
  the two ends can be empty.
\<close>

function re_split :: "('a \<Rightarrow> bool) \<Rightarrow> 'a list \<Rightarrow> 'a list list" where
  "re_split sep s =
     (case dropWhile (\<lambda>c. \<not> sep c) s of
        [] \<Rightarrow> [s]
      | c # cs \<Rightarrow> takeWhile (\<lambda>c. \<not> sep c) s # re_split sep (dropWhile sep cs))"
  by pat_completeness auto
termination
proof (relation "measure (\<lambda>(sep, s). length s)")
  show "wf (measure (\<lambda>(sep :: 'a \<Rightarrow> bool, s). length s))"
    by simp
next
  fix sep :: "'a \<Rightarrow> bool" and s c cs
  assume d: "dropWhile (\<lambda>c. \<not> sep c) s = c # cs"
  have "length (dropWhile sep cs) \<le> length cs"
    by (rule length_dropWhile_le)
  also have "length cs < length (dropWhile (\<lambda>c. \<not> sep c) s)"
    by (simp add: d)
  also have "\<dots> \<le> length s"
    by (rule length_dropWhile_le)
  finally show "((sep, dropWhile sep cs), (sep, s)) \<in> measure (\<lambda>(sep, s). length s)"
    by simp
qed

declare re_split.simps [simp del]

definition text_parse :: "string \<Rightarrow> string list" where
  "text_parse s = filter (\<lambda>i. 3 < length i) (re_split (\<lambda>c. \<not> is_word c) s)"

text \<open>
  What the specification says of the tokenizer, as a relation: \<open>pieces sep s ps\<close> holds
  when \<open>s\<close> is the pieces \<open>ps\<close>, in order, with a run of separators between each two
  neighbours, where no piece holds a separator, every run is non-empty, holds
  separators only and is maximal (what follows it is the end of the string or a
  character that is no separator).
\<close>

inductive pieces :: "('a \<Rightarrow> bool) \<Rightarrow> 'a list \<Rightarrow> 'a list list \<Rightarrow> bool" for sep where
  last: "list_all (\<lambda>c. \<not> sep c) w \<Longrightarrow> pieces sep w [w]"
| more: "list_all (\<lambda>c. \<not> sep c) w \<Longrightarrow> run \<noteq> [] \<Longrightarrow> list_all sep run \<Longrightarrow>
         rest = [] \<or> \<not> sep (hd rest) \<Longrightarrow> pieces sep rest ps \<Longrightarrow>
         pieces sep (w @ run @ rest) (w # ps)"

text \<open>\<^verbatim>\<open>re.split\<close> raises TypeError when it is handed \<^verbatim>\<open>None\<close> instead of a string.\<close>

definition text_parse_opt :: "string option \<Rightarrow> error + string list" where
  "text_parse_opt v = (case v of None \<Rightarrow> Inl TypeError | Some s \<Rightarrow> Inr (text_parse s))"


subsection \<open>The HTML handlers (lines 45 to 72)\<close>

text \<open>
  \<^verbatim>\<open>HTMLParser.feed\<close> is library code: it cuts the markup into events and calls the
  handlers of the subclass. The events are the data of the model, the function from the
  markup to its events is the parameter \<open>feed\<close>. An attribute without a value has the
  value \<^verbatim>\<open>None\<close>.
\<close>

datatype html_event =
    StartTag string "(string \<times> string option) list"
  | EndTag string
  | Data string

record parser =
  words :: "string list"
  ignore :: int

fun img_alt :: "parser \<Rightarrow> (string \<times> string option) list \<Rightarrow> error + parser" where
  "img_alt p [] = Inr p"
| "img_alt p ((n, v) # attrs) =
     (if n = ''alt'' then
        (case text_parse_opt v of
           Inl e \<Rightarrow> Inl e
         | Inr ws \<Rightarrow> img_alt (p\<lparr>words := words p @ ws\<rparr>) attrs)
      else img_alt p attrs)"

definition handle_starttag :: "parser \<Rightarrow> string \<Rightarrow> (string \<times> string option) list \<Rightarrow> error + parser" where
  "handle_starttag p tag attrs =
     (let p1 = (if tag \<in> set [''script'', ''template''] then p\<lparr>ignore := ignore p + 1\<rparr> else p)
      in if tag = ''img'' then img_alt p1 attrs else Inr p1)"

definition handle_endtag :: "parser \<Rightarrow> string \<Rightarrow> parser" where
  "handle_endtag p tag =
     (if tag \<in> set [''script'', ''template''] then p\<lparr>ignore := ignore p - 1\<rparr> else p)"

definition handle_data :: "parser \<Rightarrow> string \<Rightarrow> parser" where
  "handle_data p d = (if ignore p = 0 then p\<lparr>words := words p @ text_parse d\<rparr> else p)"

fun dispatch :: "parser \<Rightarrow> html_event list \<Rightarrow> error + parser" where
  "dispatch p [] = Inr p"
| "dispatch p (StartTag tag attrs # evs) =
     (case handle_starttag p tag attrs of Inl e \<Rightarrow> Inl e | Inr p1 \<Rightarrow> dispatch p1 evs)"
| "dispatch p (EndTag tag # evs) = dispatch (handle_endtag p tag) evs"
| "dispatch p (Data d # evs) = dispatch (handle_data p d) evs"

definition html_parse :: "(string \<Rightarrow> html_event list) \<Rightarrow> string \<Rightarrow> error + string list" where
  "html_parse feed html =
     (case dispatch \<lparr>words = [], ignore = 0\<rparr> (feed html) of
        Inl e \<Rightarrow> Inl e
      | Inr p \<Rightarrow> Inr (words p))"


subsection \<open>The feature extractor (lines 80 to 120)\<close>

text \<open>
  A parsed message, as far as the program looks at it: \<open>walk\<close> lists the parts with their
  content type and their content as a \<^verbatim>\<open>str\<close> (lines 84 to 87 and 89 to 92 decode a
  content that arrives as bytes); \<open>items\<close> lists the header fields; \<open>get\<close> is the lookup
  of one header by name (\<^verbatim>\<open>mail.get(name)\<close> and \<^verbatim>\<open>mail[name]\<close>, both \<^verbatim>\<open>None\<close> for a
  missing header); \<open>date_hour\<close> is \<^verbatim>\<open>mail["Date"].datetime.astimezone().hour\<close>, or
  \<open>None\<close> when that expression raises.
\<close>

record part =
  content_type :: string
  content :: string

record mail =
  walk :: "part list"
  items :: "(string \<times> string) list"
  get :: "string \<Rightarrow> string option"
  date_hour :: "int option"

text \<open>The loop of lines 82 to 92: the last part of each type wins.\<close>

fun bodies :: "string option \<times> string option \<Rightarrow> part list \<Rightarrow> string option \<times> string option" where
  "bodies (html, plain) [] = (html, plain)"
| "bodies (html, plain) (p # ps) =
     (if content_type p = ''text/html'' then bodies (Some (content p), plain) ps
      else if content_type p = ''text/plain'' then bodies (html, Some (content p)) ps
      else bodies (html, plain) ps)"

text \<open>The loop of lines 101 to 106.\<close>

fun header_words :: "(string \<times> string) list \<Rightarrow> string list" where
  "header_words [] = []"
| "header_words ((k, v) # kvs) =
     (if k \<in> set [''Subject'', ''From'', ''Reply-To''] then text_parse v else []) @
     (if take 2 k = ''X-'' then text_parse v @ [k] else []) @
     header_words kvs"

text \<open>Lines 107 to 118.\<close>

definition date_words :: "int option \<Rightarrow> string list" where
  "date_words hour =
     (case hour of
        None \<Rightarrow> []
      | Some h \<Rightarrow>
          [if h < 8 then ''Date*overnight''
           else if 8 \<le> h \<and> h < 17 then ''Date*business''
           else ''Date*evening''])"

text \<open>
  Line 97 tests the truth value of \<^verbatim>\<open>html\<close>: an empty markup with no plain text falls to
  line 100, where \<^verbatim>\<open>_text_parse(None)\<close> raises.
\<close>

definition process_mail :: "(string \<Rightarrow> html_event list) \<Rightarrow> mail \<Rightarrow> error + string list" where
  "process_mail feed m =
     (case bodies (None, None) (walk m) of
        (None, None) \<Rightarrow> Inr []
      | (html, plain) \<Rightarrow>
          (case (case html of
                   Some h \<Rightarrow> if h \<noteq> [] \<and> plain = None then html_parse feed h
                             else text_parse_opt plain
                 | None \<Rightarrow> text_parse_opt plain) of
             Inl e \<Rightarrow> Inl e
           | Inr ws \<Rightarrow> Inr (ws @ header_words (items m) @ date_words (date_hour m))))"


subsection \<open>The learner (lines 123 to 164)\<close>

text \<open>
  A token statistic is the triple (day last seen, spam count, ham count); \<open>words_db\<close>
  maps a token to its statistic and \<open>msg_db\<close> a message identifier to its label.
\<close>

type_synonym stat = "int \<times> int \<times> int"

record stores =
  words_db :: "(string \<times> stat) list"
  msg_db :: "(string \<times> bool) list"

text \<open>\<^verbatim>\<open>"%s" % v\<close> for a header value, which is \<^verbatim>\<open>None\<close> when the header is missing.\<close>

definition percent_s :: "string option \<Rightarrow> string" where
  "percent_s v = (case v of None \<Rightarrow> ''None'' | Some s \<Rightarrow> s)"

text \<open>Lines 134 to 136.\<close>

definition msg_id_of :: "mail \<Rightarrow> string" where
  "msg_id_of m =
     (case get m ''Message-ID'' of
        Some i \<Rightarrow> i
      | None \<Rightarrow> percent_s (get m ''Date'') @ ''/'' @ percent_s (get m ''From''))"

text \<open>
  The loop of lines 149 to 164. \<open>prev\<close> is \<open>None\<close> when \<^verbatim>\<open>previous\<close> is false and
  \<open>Some prev_spam\<close> otherwise. Line 164 evaluates the call \<^verbatim>\<open>today()\<close> before it stores
  the tuple.
\<close>

fun learn_words :: "int \<Rightarrow> bool option \<Rightarrow> bool \<Rightarrow> (string \<times> stat) list \<Rightarrow> string list
    \<Rightarrow> outcome \<times> (string \<times> stat) list" where
  "learn_words day prev spam db [] = (Returned, db)"
| "learn_words day prev spam db (w # ws) =
     (let (spam_no, ham_no) =
            (case map_of db w of
               Some (_, s, h) \<Rightarrow>
                 (case prev of
                    None \<Rightarrow> (s, h)
                  | Some prev_spam \<Rightarrow> if prev_spam then (max 0 (s - 1), h) else (s, max 0 (h - 1)))
             | None \<Rightarrow> (0, 0));
          (spam_no, ham_no) = (if spam then (spam_no + 1, ham_no) else (spam_no, ham_no + 1))
      in case call_global0 day ''today'' of
           Inl e \<Rightarrow> (Raised e, db)
         | Inr d \<Rightarrow> learn_words day prev spam (AList.update w (d, spam_no, ham_no) db) ws)"

definition learn_tokens :: "(string \<Rightarrow> html_event list) \<Rightarrow> int \<Rightarrow> stores \<Rightarrow> mail \<Rightarrow> bool option \<Rightarrow> bool
    \<Rightarrow> outcome \<times> stores" where
  "learn_tokens feed day st m prev spam =
     (case process_mail feed m of
        Inl e \<Rightarrow> (Raised e, st)
      | Inr ws \<Rightarrow>
          (case learn_words day prev spam (words_db st) ws of
             (r, db) \<Rightarrow> (r, st\<lparr>words_db := db\<rparr>)))"

text \<open>
  Line 138 writes the ledger before line 140 reads the previous label, so the label read
  is the one just written.
\<close>

definition learn :: "(string \<Rightarrow> html_event list) \<Rightarrow> int \<Rightarrow> stores \<Rightarrow> mail \<Rightarrow> bool \<Rightarrow> outcome \<times> stores" where
  "learn feed day st m spam =
     (let msg_id = msg_id_of m;
          previous = (msg_id \<in> set (map fst (msg_db st)));
          st1 = st\<lparr>msg_db := AList.update msg_id spam (msg_db st)\<rparr>
      in if previous then
           (case map_of (msg_db st1) msg_id of
              None \<Rightarrow> (Raised KeyError, st1)
            | Some prev_spam \<Rightarrow>
                if prev_spam = spam then (Returned, st1)
                else learn_tokens feed day st1 m (Some prev_spam) spam)
         else learn_tokens feed day st1 m None spam)"


subsection \<open>The cleanup subcommand (lines 226 to 227)\<close>

text \<open>
  \<^verbatim>\<open>cmd_cleanup\<close> calls \<^verbatim>\<open>cleanup(words_db)\<close>. No function of the module takes the token
  store alone, so a call through a bound name is recorded as TypeError; a call through an
  unbound name raises NameError.
\<close>

definition call_global1 :: "string \<Rightarrow> stores \<Rightarrow> outcome \<times> stores" where
  "call_global1 f st =
     (if f \<in> set module_globals then (Raised TypeError, st) else (Raised NameError, st))"

text \<open>
  The subcommand declares the arguments \<^verbatim>\<open>days\<close> and \<^verbatim>\<open>count\<close> (lines 318 to 319:
  "words not seen for this many days", "words below this usage count"); line 227 passes
  neither on.
\<close>

definition cmd_cleanup :: "int \<Rightarrow> int \<Rightarrow> stores \<Rightarrow> outcome \<times> stores" where
  "cmd_cleanup days count st = call_global1 ''cleanup'' st"


subsection \<open>Python floats\<close>

text \<open>
  A Python \<^verbatim>\<open>float\<close> is an IEEE 754 binary64 number. A finite one is the rational it
  denotes (the sign of a zero is never looked at by the program); \<open>PInf\<close> and \<open>MInf\<close>
  are the infinities. No operation of \<^verbatim>\<open>probe\<close> produces a NaN: it would take a
  difference of infinities, a product of zero and infinity or a quotient of infinities,
  and the only operation applied to an infinity is a division of a finite number by it.

  Every arithmetic operation computes the exact result and rounds it once, to the
  nearest binary64 number, ties to the even significand. \<open>rnd\<close> is this rounding where the
  exponent range is unbounded above: for a number with
  \<open>2 ^ e \<le> \<bar>x\<bar> < 2 ^ (e + 1)\<close> the representable numbers around it are the multiples of
  \<open>2 ^ (e - 52)\<close>, and below \<open>2 ^ (- 1022)\<close> (the subnormal range) the multiples of
  \<open>2 ^ (- 1074)\<close>. \<open>round_double\<close> adds the overflow to an infinity.
\<close>

datatype pyfloat = Fin rat | PInf | MInf

definition pow2 :: "int \<Rightarrow> rat" where
  "pow2 k = (if 0 \<le> k then of_int (2 ^ nat k) else 1 / of_int (2 ^ nat (- k)))"

definition round_half_even :: "rat \<Rightarrow> int" where
  "round_half_even x =
     (let f = \<lfloor>x\<rfloor>; r = x - of_int f
      in if r < 1 / 2 then f else if 1 / 2 < r then f + 1 else if even f then f else f + 1)"

text \<open>For \<open>0 < x\<close>, the \<open>e\<close> with \<open>2 ^ e \<le> x < 2 ^ (e + 1)\<close>.\<close>

definition floor_log2 :: "rat \<Rightarrow> int" where
  "floor_log2 x = (if 1 \<le> x then bitlen \<lfloor>x\<rfloor> - 1 else - bitlen (\<lceil>1 / x\<rceil> - 1))"

definition rnd :: "rat \<Rightarrow> rat" where
  "rnd x =
     (if x = 0 then 0
      else let e = max (floor_log2 \<bar>x\<bar>) (- 1022);
               m = round_half_even (\<bar>x\<bar> * pow2 (52 - e))
           in sgn x * of_int m * pow2 (e - 52))"

definition round_double :: "rat \<Rightarrow> pyfloat" where
  "round_double x =
     (let r = rnd x
      in if pow2 1024 \<le> r then PInf else if r \<le> - pow2 1024 then MInf else Fin r)"

text \<open>
  \<^verbatim>\<open>a / b\<close> on two \<^verbatim>\<open>int\<close>s: the correctly rounded quotient; ZeroDivisionError for a
  zero divisor, OverflowError when the quotient is too large for a float.
\<close>

definition int_truediv :: "int \<Rightarrow> int \<Rightarrow> error + rat" where
  "int_truediv a b =
     (if b = 0 then Inl ZeroDivisionError
      else case round_double (of_int a / of_int b) of
             Fin r \<Rightarrow> Inr r
           | PInf \<Rightarrow> Inl OverflowError
           | MInf \<Rightarrow> Inl OverflowError)"

text \<open>\<^verbatim>\<open>a + b\<close> on two finite floats: an overflow gives an infinity, no exception.\<close>

definition float_add :: "rat \<Rightarrow> rat \<Rightarrow> pyfloat" where
  "float_add a b = round_double (a + b)"

text \<open>
  \<^verbatim>\<open>a / b\<close> on a finite float and a float: ZeroDivisionError for a zero divisor, zero for
  an infinite one; an overflow gives an infinity.
\<close>

definition float_div :: "rat \<Rightarrow> pyfloat \<Rightarrow> error + pyfloat" where
  "float_div a b =
     (case b of
        Fin d \<Rightarrow> if d = 0 then Inl ZeroDivisionError else Inr (round_double (a / d))
      | PInf \<Rightarrow> Inr (Fin 0)
      | MInf \<Rightarrow> Inr (Fin 0))"

text \<open>
  The differences and products of lines 199 to 204 have operands between 0 and 1, where
  no overflow arises (\<open>float_sub_unit\<close>, \<open>float_sub_key\<close> and \<open>float_mul_unit\<close> below):
  the result is finite, \<open>rnd\<close> of the exact one.
\<close>

definition float_sub :: "rat \<Rightarrow> rat \<Rightarrow> rat" where
  "float_sub a b = rnd (a - b)"

definition float_mul :: "rat \<Rightarrow> rat \<Rightarrow> rat" where
  "float_mul a b = rnd (a * b)"

text \<open>The literals \<^verbatim>\<open>0.99999\<close> and \<^verbatim>\<open>0.00001\<close>: the nearest floats.\<close>

definition hi :: rat where
  "hi = rnd (99999 / 100000)"

definition lo :: rat where
  "lo = rnd (1 / 100000)"


subsection \<open>The scorer (lines 166 to 206)\<close>

text \<open>The loop of lines 179 to 185: (spam_total, ham_total).\<close>

fun totals :: "(string \<times> bool) list \<Rightarrow> string list \<Rightarrow> int \<times> int \<Rightarrow> int \<times> int" where
  "totals db [] (spam_total, ham_total) = (spam_total, ham_total)"
| "totals db (m # ms) (spam_total, ham_total) =
     (if map_of db m = Some True then totals db ms (spam_total + 1, ham_total)
      else totals db ms (spam_total, ham_total + 1))"

text \<open>
  Lines 195 and 196: \<^verbatim>\<open>min(0.99999, x)\<close> is \<open>x\<close> when \<open>x < 0.99999\<close> and the literal
  otherwise, \<^verbatim>\<open>max(0.00001, x)\<close> is \<open>x\<close> when \<open>0.00001 < x\<close> and the literal otherwise.
  The result is finite.
\<close>

fun clamp :: "pyfloat \<Rightarrow> rat" where
  "clamp (Fin x) = (let y = (if x < hi then x else hi) in if lo < y then y else lo)"
| "clamp PInf = hi"
| "clamp MInf = lo"

text \<open>Lines 190 to 196 for one stored token.\<close>

definition word_prob :: "int \<Rightarrow> int \<Rightarrow> int \<Rightarrow> int \<Rightarrow> error + rat" where
  "word_prob spam_no ham_no spam_total ham_total =
     (case int_truediv spam_no spam_total of
        Inl e \<Rightarrow> Inl e
      | Inr pr_w_s \<Rightarrow>
          (case int_truediv ham_no ham_total of
             Inl e \<Rightarrow> Inl e
           | Inr pr_w_h \<Rightarrow>
               (case float_div pr_w_s (float_add pr_w_h pr_w_s) of
                  Inl e \<Rightarrow> Inl e
                | Inr pr_s_w \<Rightarrow> Inr (clamp pr_s_w))))"

text \<open>The loop of lines 187 to 197: \<^verbatim>\<open>all_p\<close>, or the first exception.\<close>

fun collect :: "(string \<times> stat) list \<Rightarrow> int \<Rightarrow> int \<Rightarrow> string list \<Rightarrow> error + rat list" where
  "collect db spam_total ham_total [] = Inr []"
| "collect db spam_total ham_total (w # ws) =
     (case map_of db w of
        None \<Rightarrow> collect db spam_total ham_total ws
      | Some (_, spam_no, ham_no) \<Rightarrow>
          (case word_prob spam_no ham_no spam_total ham_total of
             Inl e \<Rightarrow> Inl e
           | Inr p \<Rightarrow>
               (case collect db spam_total ham_total ws of
                  Inl e \<Rightarrow> Inl e
                | Inr ps \<Rightarrow> Inr (p # ps))))"

text \<open>
  Python slices \<^verbatim>\<open>xs[i:]\<close> and \<^verbatim>\<open>xs[:i]\<close>: a negative index counts from the end, and
  an index outside the list is cut to the nearer end.
\<close>

definition slice_from :: "int \<Rightarrow> 'a list \<Rightarrow> 'a list" where
  "slice_from i xs = (if i < 0 then drop (nat (int (length xs) + i)) xs else drop (nat i) xs)"

definition slice_to :: "int \<Rightarrow> 'a list \<Rightarrow> 'a list" where
  "slice_to i xs = (if i < 0 then take (nat (int (length xs) + i)) xs else take (nat i) xs)"

text \<open>
  Lines 198 to 200. \<^verbatim>\<open>list.sort\<close> is stable and ascending in the key, as \<open>sort_key\<close> is.
\<close>

definition select :: "int \<Rightarrow> rat list \<Rightarrow> rat list" where
  "select max_words all_p =
     (if max_words * 2 < int (length all_p) then
        (let sorted_p = sort_key (\<lambda>n. float_sub n (1 / 2)) all_p
         in slice_from (- max_words) sorted_p @ slice_to max_words sorted_p)
      else all_p)"

text \<open>
  Lines 201 to 204. \<^verbatim>\<open>p1\<close> and \<^verbatim>\<open>p2\<close> start as the \<^verbatim>\<open>int\<close> 1, which the first
  product converts to the float 1.
\<close>

fun products :: "rat \<times> rat \<Rightarrow> rat list \<Rightarrow> rat \<times> rat" where
  "products (p1, p2) [] = (p1, p2)"
| "products (p1, p2) (p # ps) = products (float_mul p1 p, float_mul p2 (float_sub 1 p)) ps"

text \<open>
  Line 205: \<^verbatim>\<open>p1 / (p1 + p2)\<close>. With no factor this is \<^verbatim>\<open>1 / (1 + 1)\<close> on \<^verbatim>\<open>int\<close>s,
  the same value as on floats.
\<close>

definition combine :: "rat list \<Rightarrow> error + pyfloat" where
  "combine ps = (case products (1, 1) ps of (p1, p2) \<Rightarrow> float_div p1 (float_add p1 p2))"

text \<open>Lines 179 to 206 on the tokens of the message.\<close>

definition score :: "stores \<Rightarrow> int \<Rightarrow> string list \<Rightarrow> error + pyfloat" where
  "score st max_words ws =
     (case totals (msg_db st) (map fst (msg_db st)) (0, 0) of
        (spam_total, ham_total) \<Rightarrow>
          (case collect (words_db st) spam_total ham_total ws of
             Inl e \<Rightarrow> Inl e
           | Inr all_p \<Rightarrow> combine (select max_words all_p)))"

definition probe :: "(string \<Rightarrow> html_event list) \<Rightarrow> stores \<Rightarrow> mail \<Rightarrow> int \<Rightarrow> error + pyfloat" where
  "probe feed st m max_words =
     (case process_mail feed m of
        Inl e \<Rightarrow> Inl e
      | Inr ws \<Rightarrow> score st max_words ws)"


subsection \<open>Example inputs\<close>

text \<open>A message with one plain-text part, a Message-ID header and no other header.\<close>

definition plain_mail :: "string \<Rightarrow> string \<Rightarrow> mail" where
  "plain_mail i body =
     \<lparr>walk = [\<lparr>content_type = ''text/plain'', content = body\<rparr>],
      items = [(''Message-ID'', i)],
      get = map_of [(''Message-ID'', i)],
      date_hour = None\<rparr>"


text \<open>A parser driver for messages without markup.\<close>

definition no_markup :: "string \<Rightarrow> html_event list" where
  "no_markup h = []"

text \<open>
  A ledger with one spam and one ham message, and a token store that holds the token
  \<^verbatim>\<open>viagra\<close> with the given counts.
\<close>

definition store :: "int \<Rightarrow> int \<Rightarrow> stores" where
  "store spam_no ham_no =
     \<lparr>words_db = [(''viagra'', (738000, spam_no, ham_no))],
      msg_db = [(''<1@x>'', True), (''<2@x>'', False)]\<rparr>"


section \<open>The learner\<close>

lemma call_today: "call_global0 day ''today'' = Inl NameError"
  by (simp add: call_global0_def module_globals_def)

text \<open>The loop raises at its first token, before it has written anything.\<close>

lemma learn_words_outcome:
  "learn_words day prev spam db ws = (if ws = [] then (Returned, db) else (Raised NameError, db))"
  by (cases ws) (simp_all add: call_today split: prod.splits option.splits)

lemma map_of_update_same: "map_of (AList.update k v al) k = Some v"
  by (simp add: update_conv')

lemma text_parse_viagra: "text_parse ''viagra'' = [''viagra'']"
  by (simp add: text_parse_def re_split.simps is_word_def)

lemma process_plain_viagra: "process_mail feed (plain_mail i ''viagra'') = Inr [''viagra'']"
  by (simp add: process_mail_def plain_mail_def text_parse_opt_def text_parse_viagra date_words_def)

lemma msg_id_plain_mail: "msg_id_of (plain_mail i body) = i"
  by (simp add: msg_id_of_def plain_mail_def)

lemma learn_new_message:
  "msg_id_of m \<notin> set (map fst (msg_db st)) \<Longrightarrow> process_mail feed m = Inr (w # ws) \<Longrightarrow>
   learn feed day st m spam =
     (Raised NameError, st\<lparr>msg_db := AList.update (msg_id_of m) spam (msg_db st)\<rparr>)"
  by (simp add: learn_def Let_def learn_tokens_def learn_words_outcome)

lemma learn_old_message:
  "msg_id_of m \<in> set (map fst (msg_db st)) \<Longrightarrow>
   learn feed day st m spam = (Returned, st\<lparr>msg_db := AList.update (msg_id_of m) spam (msg_db st)\<rparr>)"
  by (simp add: learn_def Let_def map_of_update_same)

text \<open>
  C1 (the code differs). The claim: for a message with at least one token whose identifier
  is not in the ledger, \<^verbatim>\<open>learn\<close> completes and stores, for every token, a statistic with
  the count of the label incremented and the current day. The code: line 164 calls
  \<^verbatim>\<open>today()\<close>, the function is \<^verbatim>\<open>_today\<close>; on the empty stores and a new message
  with the one token \<^verbatim>\<open>viagra\<close>, learning it as spam raises NameError, the ledger
  holds the message, and no statistic is stored.
\<close>

theorem C1_learn_new_message_raises:
  "learn feed 738000 \<lparr>words_db = [], msg_db = []\<rparr> (plain_mail ''<1@x>'' ''viagra'') True =
     (Raised NameError, \<lparr>words_db = [], msg_db = [(''<1@x>'', True)]\<rparr>)"
  by (simp add: learn_def learn_tokens_def process_plain_viagra msg_id_plain_mail
      learn_words_outcome Let_def)

text \<open>
  C2 (the code differs). The claim: learning as spam a message that the ledger holds as
  ham decrements the ham count and increments the spam count of every token. The code:
  line 138 writes the new label before line 140 reads the old one, so the labels compare
  equal and line 144 returns; the ledger shows spam and the counts are as before.
\<close>

theorem C2_relearn_leaves_counts:
  "learn feed 738000
     \<lparr>words_db = [(''viagra'', (737999, 0, 1))], msg_db = [(''<1@x>'', False)]\<rparr>
     (plain_mail ''<1@x>'' ''viagra'') True =
     (Returned, \<lparr>words_db = [(''viagra'', (737999, 0, 1))], msg_db = [(''<1@x>'', True)]\<rparr>)"
  by (simp add: learn_def msg_id_plain_mail Let_def)

text \<open>
  C3 (the code differs). The claim: a cleanup operation removes exactly the statistics
  that are older than \<^verbatim>\<open>maxAgeDays\<close> and below \<^verbatim>\<open>minCount\<close>. The code: the subcommand
  calls a function \<^verbatim>\<open>cleanup\<close> that the module does not define; whatever the arguments
  and the stores, it raises NameError and leaves the stores as they are.
\<close>

theorem C3_cmd_cleanup_raises: "cmd_cleanup days count st = (Raised NameError, st)"
  by (simp add: cmd_cleanup_def call_global1_def module_globals_def)

text \<open>
  Where the loop raises, the store it leaves is the store after the tokens before the
  failing one: nothing is undone.
\<close>

lemma learn_words_no_rollback:
  assumes "learn_words day prev spam db ws = (Raised e, db')"
  shows "\<exists>ws1 w ws2. ws = ws1 @ w # ws2 \<and> learn_words day prev spam db ws1 = (Returned, db')"
proof (cases ws)
  case Nil
  with assms show ?thesis by simp
next
  case (Cons w ws2)
  with assms have "db' = db"
    by (simp add: learn_words_outcome)
  with Cons have "ws = [] @ w # ws2 \<and> learn_words day prev spam db [] = (Returned, db')"
    by simp
  then show ?thesis by blast
qed

text \<open>
  C10. \<^verbatim>\<open>learn\<close> writes the ledger entry (line 138) before it reads or writes a token
  statistic (lines 149 to 164). Hence, whenever \<^verbatim>\<open>learn\<close> raises, the ledger it leaves is
  the old one with the identifier mapped to the new label, and the token store is not
  rolled back: either the feature extractor raised and the store is untouched, or the
  loop raised at some token and the store is the one the loop had built from the tokens
  before it.
\<close>

theorem C10_ledger_written_before_tokens:
  assumes "learn feed day st m spam = (Raised e, st')"
  shows "msg_db st' = AList.update (msg_id_of m) spam (msg_db st) \<and>
         map_of (msg_db st') (msg_id_of m) = Some spam \<and>
         (process_mail feed m = Inl e \<and> words_db st' = words_db st \<or>
          (\<exists>prev ws1 w ws2. process_mail feed m = Inr (ws1 @ w # ws2) \<and>
             learn_words day prev spam (words_db st) ws1 = (Returned, words_db st')))"
proof -
  let ?st1 = "st\<lparr>msg_db := AList.update (msg_id_of m) spam (msg_db st)\<rparr>"
  from assms obtain prev where lt: "learn_tokens feed day ?st1 m prev spam = (Raised e, st')"
    by (auto simp: learn_def Let_def map_of_update_same split: if_splits)
  show ?thesis
  proof (cases "process_mail feed m")
    case (Inl e')
    with lt show ?thesis
      by (auto simp: learn_tokens_def map_of_update_same)
  next
    case (Inr ws)
    with lt obtain db where lw: "learn_words day prev spam (words_db st) ws = (Raised e, db)"
      and st': "st' = ?st1\<lparr>words_db := db\<rparr>"
      by (auto simp: learn_tokens_def split: prod.splits)
    from learn_words_no_rollback [OF lw] obtain ws1 w ws2
      where "ws = ws1 @ w # ws2" "learn_words day prev spam (words_db st) ws1 = (Returned, db)"
      by blast
    with Inr st' show ?thesis
      by (auto simp: map_of_update_same)
  qed
qed

theorem C10_ledger_written_before_tokens_witness:
  "learn no_markup 738000 \<lparr>words_db = [], msg_db = []\<rparr> (plain_mail ''<2@x>'' ''viagra'') False =
     (Raised NameError, \<lparr>words_db = [], msg_db = [(''<2@x>'', False)]\<rparr>) \<and>
   map_of [(''<2@x>'', False)] ''<2@x>'' = Some False"
proof -
  have l: "learn no_markup 738000 \<lparr>words_db = [], msg_db = []\<rparr> (plain_mail ''<2@x>'' ''viagra'') False =
     (Raised NameError, \<lparr>words_db = [], msg_db = [(''<2@x>'', False)]\<rparr>)"
    by (simp add: learn_def learn_tokens_def process_plain_viagra msg_id_plain_mail
        learn_words_outcome Let_def)
  from C10_ledger_written_before_tokens [OF l] show ?thesis
    using l by (simp add: msg_id_plain_mail)
qed

section \<open>The tokenizer\<close>

text \<open>A string without a separator is one piece.\<close>

lemma re_split_no_sep:
  assumes "list_all (\<lambda>c. \<not> sep c) w"
  shows "re_split sep w = [w]"
proof -
  from assms have d: "dropWhile (\<lambda>c. \<not> sep c) w = []"
    by (simp add: list_all_iff)
  show ?thesis
    by (subst re_split.simps) (simp only: d list.case)
qed

lemma dropWhile_run:
  assumes "list_all sep run" and "rest = [] \<or> \<not> sep (hd rest)"
  shows "dropWhile sep (run @ rest) = rest"
proof -
  have "dropWhile sep rest = rest"
    using assms(2) by (cases rest) auto
  with assms(1) show ?thesis
    by (simp add: list_all_iff dropWhile_append)
qed

text \<open>One step of the split: the first piece, the run behind it, and the rest.\<close>

lemma re_split_more:
  assumes w: "list_all (\<lambda>c. \<not> sep c) w" and run: "run \<noteq> []" "list_all sep run"
    and rest: "rest = [] \<or> \<not> sep (hd rest)"
  shows "re_split sep (w @ run @ rest) = w # re_split sep rest"
proof -
  from run obtain c cs where c: "run = c # cs" "sep c" "list_all sep cs"
    by (cases run) auto
  have d: "dropWhile (\<lambda>c. \<not> sep c) (w @ run @ rest) = c # cs @ rest"
    using w c by (simp add: list_all_iff dropWhile_append)
  have t: "takeWhile (\<lambda>c. \<not> sep c) (w @ run @ rest) = w"
    using w c by (simp add: list_all_iff takeWhile_append)
  have "dropWhile sep (cs @ rest) = rest"
    using c(3) rest by (rule dropWhile_run)
  with d t show ?thesis
    by (subst re_split.simps) simp
qed

text \<open>The split is a decomposition into pieces, and the only one.\<close>

lemma pieces_unique: "pieces sep s ps \<Longrightarrow> ps = re_split sep s"
  by (induction rule: pieces.induct) (simp_all add: re_split_no_sep re_split_more)

lemma pieces_re_split: "pieces sep s (re_split sep s)"
proof (induction sep s rule: re_split.induct)
  case (1 sep s)
  show ?case
  proof (cases "dropWhile (\<lambda>c. \<not> sep c) s")
    case Nil
    then have "list_all (\<lambda>c. \<not> sep c) s"
      by (simp add: list_all_iff)
    then show ?thesis
      by (simp add: re_split_no_sep pieces.last)
  next
    case (Cons c cs)
    let ?w = "takeWhile (\<lambda>c. \<not> sep c) s"
    let ?run = "c # takeWhile sep cs"
    let ?rest = "dropWhile sep cs"
    have c: "sep c"
      using Cons hd_dropWhile [of "\<lambda>c. \<not> sep c" s] by fastforce
    have s: "s = ?w @ ?run @ ?rest"
      using Cons takeWhile_dropWhile_id [of "\<lambda>c. \<not> sep c" s] by simp
    have w: "list_all (\<lambda>c. \<not> sep c) ?w"
      by (auto simp: list_all_iff dest: set_takeWhileD)
    have run: "list_all sep ?run"
      using c by (auto simp: list_all_iff dest: set_takeWhileD)
    have rest: "?rest = [] \<or> \<not> sep (hd ?rest)"
      using hd_dropWhile [of sep cs] by blast
    have "pieces sep ?rest (re_split sep ?rest)"
      using Cons by (rule "1.IH")
    with w run rest have "pieces sep (?w @ ?run @ ?rest) (?w # re_split sep ?rest)"
      by (intro pieces.more) simp_all
    moreover have "re_split sep s = ?w # re_split sep ?rest"
      using Cons by (subst re_split.simps) simp
    ultimately show ?thesis
      using s by simp
  qed
qed

text \<open>
  C8. For every string, the tokenizer splits at the maximal runs of non-word characters
  and keeps exactly the pieces longer than 3, in their order and with duplicates: the
  string has a decomposition into pieces and maximal separator runs, and for every such
  decomposition the result of the tokenizer is its list of pieces filtered by length.
  On \<^verbatim>\<open>Hello, world! foo\<close> it yields \<^verbatim>\<open>Hello\<close> and \<^verbatim>\<open>world\<close>, on the empty string
  nothing.
\<close>

theorem C8_tokenizer:
  "(\<exists>ps. pieces (\<lambda>c. \<not> is_word c) s ps) \<and>
   (\<forall>ps. pieces (\<lambda>c. \<not> is_word c) s ps \<longrightarrow> text_parse s = filter (\<lambda>p. 3 < length p) ps) \<and>
   text_parse ''Hello, world! foo'' = [''Hello'', ''world''] \<and>
   text_parse '''' = []"
proof (intro conjI allI impI)
  show "\<exists>ps. pieces (\<lambda>c. \<not> is_word c) s ps"
    using pieces_re_split by blast
next
  fix ps
  assume "pieces (\<lambda>c. \<not> is_word c) s ps"
  then have "ps = re_split (\<lambda>c. \<not> is_word c) s"
    by (rule pieces_unique)
  then show "text_parse s = filter (\<lambda>p. 3 < length p) ps"
    by (simp add: text_parse_def)
next
  show "text_parse ''Hello, world! foo'' = [''Hello'', ''world'']"
    by (simp add: text_parse_def re_split.simps is_word_def)
next
  show "text_parse '''' = []"
    by (simp add: text_parse_def re_split.simps)
qed

theorem C8_tokenizer_witness:
  "pieces (\<lambda>c. \<not> is_word c) ''spam, ham and spam'' [''spam'', ''ham'', ''and'', ''spam''] \<and>
   text_parse ''spam, ham and spam'' = [''spam'', ''spam'']"
proof -
  have 4: "pieces (\<lambda>c. \<not> is_word c) ''spam'' [''spam'']"
    by (rule pieces.last) (simp add: is_word_def)
  have 3: "pieces (\<lambda>c. \<not> is_word c) (''and'' @ '' '' @ ''spam'') [''and'', ''spam'']"
    by (rule pieces.more [OF _ _ _ _ 4]) (simp_all add: is_word_def)
  have 2: "pieces (\<lambda>c. \<not> is_word c) (''ham'' @ '' '' @ (''and'' @ '' '' @ ''spam'')) [''ham'', ''and'', ''spam'']"
    by (rule pieces.more [OF _ _ _ _ 3]) (simp_all add: is_word_def)
  have 1: "pieces (\<lambda>c. \<not> is_word c) (''spam'' @ '', '' @ (''ham'' @ '' '' @ (''and'' @ '' '' @ ''spam'')))
      [''spam'', ''ham'', ''and'', ''spam'']"
    by (rule pieces.more [OF _ _ _ _ 2]) (simp_all add: is_word_def)
  then have p: "pieces (\<lambda>c. \<not> is_word c) ''spam, ham and spam'' [''spam'', ''ham'', ''and'', ''spam'']"
    by simp
  from C8_tokenizer [of "''spam, ham and spam''"] p
  have "text_parse ''spam, ham and spam'' = filter (\<lambda>p. 3 < length p) [''spam'', ''ham'', ''and'', ''spam'']"
    by blast
  with p show ?thesis by simp
qed


section \<open>Evaluating floats\<close>

text \<open>
  Rules that let the simplifier compute \<open>rnd\<close> on literals: floors and ceilings of
  fractions as integer divisions, and the bit length by halving.
\<close>

lemma floor_rat_numeral: "\<lfloor>numeral a / numeral b :: rat\<rfloor> = numeral a div numeral b"
  by (metis floor_divide_of_int_eq of_int_numeral)

lemma floor_rat_one: "\<lfloor>1 / numeral b :: rat\<rfloor> = 1 div numeral b"
  by (metis floor_divide_of_int_eq of_int_numeral of_int_1)

lemma ceiling_rat_numeral: "\<lceil>numeral a / numeral b :: rat\<rceil> = - ((- numeral a) div numeral b)"
  by (metis ceiling_divide_eq_div of_int_numeral)

lemma ceiling_rat_one: "\<lceil>1 / numeral b :: rat\<rceil> = - ((- 1) div numeral b)"
  by (metis ceiling_divide_eq_div of_int_numeral of_int_1)

lemma bitlen_numeral: "bitlen (numeral k) = bitlen (numeral k div 2) + 1"
  by (subst compute_bitlen) simp

lemma bitlen_one: "bitlen 1 = 1"
  by (subst compute_bitlen) simp

lemmas rnd_eval = rnd_def floor_log2_def round_half_even_def pow2_def Let_def
  floor_rat_numeral floor_rat_one ceiling_rat_numeral ceiling_rat_one bitlen_numeral bitlen_one

text \<open>
  The two literals, as \<^verbatim>\<open>(0.99999).as_integer_ratio()\<close> and
  \<^verbatim>\<open>(0.00001).as_integer_ratio()\<close> give them.
\<close>

lemma hi_val: "hi = 9007109182748445 / 9007199254740992"
  unfolding hi_def by (simp add: rnd_eval split del: if_split)

lemma lo_val: "lo = 5902958103587057 / 590295810358705651712"
  unfolding lo_def by (simp add: rnd_eval split del: if_split)

text \<open>The float nearest to a tenth, as \<^verbatim>\<open>(0.1).as_integer_ratio()\<close> gives it.\<close>

lemma rnd_tenth: "rnd (1 / 10) = 3602879701896397 / 36028797018963968"
  by (simp add: rnd_eval split del: if_split)

lemmas float_eval = round_double_def int_truediv_def float_add_def float_div_def float_sub_def
  float_mul_def hi_val lo_val rnd_eval

lemma rnd_0: "rnd 0 = 0"
  by (simp add: rnd_def)


section \<open>The float model\<close>

text \<open>
  \<open>floor_log2\<close> is the binary exponent, and \<open>round_half_even\<close> is within a half of its
  argument: \<open>rnd x\<close> is a multiple of the spacing at the exponent of \<open>x\<close> that is nearest
  to \<open>x\<close>.
\<close>

lemma pow2_pos: "0 < pow2 k"
  by (simp add: pow2_def)

lemma pow2_inverse: "pow2 k * pow2 (- k) = 1"
  by (cases "k = 0") (auto simp: pow2_def)

lemma pow2_nonneg_exp: "0 \<le> k \<Longrightarrow> pow2 k = 2 ^ nat k"
  by (simp add: pow2_def)

lemma pow2_neg_exp: "k \<le> 0 \<Longrightarrow> pow2 k = 1 / 2 ^ nat (- k)"
  by (cases "k = 0") (simp_all add: pow2_def)

lemma rat_power_le_int: "(2 :: int) ^ k \<le> n \<Longrightarrow> (2 :: rat) ^ k \<le> of_int n"
  by (metis of_int_le_iff of_int_numeral of_int_power)

lemma int_le_rat_power: "n \<le> (2 :: int) ^ k \<Longrightarrow> (of_int n :: rat) \<le> 2 ^ k"
  by (metis of_int_le_iff of_int_numeral of_int_power)

lemma floor_log2_bounds:
  assumes "0 < x"
  shows "pow2 (floor_log2 x) \<le> x \<and> x < pow2 (floor_log2 x + 1)"
proof (cases "1 \<le> x")
  case True
  define n where "n = \<lfloor>x\<rfloor>"
  define k where "k = bitlen n"
  have n: "0 < n" "of_int n \<le> x" "x < of_int (n + 1)"
    using True by (simp_all add: n_def) linarith+
  have k: "1 \<le> k"
    using n(1) bitlen_nonneg [of n] bitlen_eq_zero_iff [of n] unfolding k_def by linarith
  from bitlen_bounds [OF n(1)] have b: "2 ^ nat (k - 1) \<le> n" "n + 1 \<le> 2 ^ nat k"
    by (simp_all add: k_def)
  have e: "floor_log2 x = k - 1"
    using True by (simp add: floor_log2_def n_def k_def)
  have p1: "pow2 (k - 1) = 2 ^ nat (k - 1)" and p2: "pow2 k = 2 ^ nat k"
    using k by (simp_all add: pow2_nonneg_exp)
  have "(2 :: rat) ^ nat (k - 1) \<le> of_int n"
    using b(1) by (rule rat_power_le_int)
  also note n(2)
  finally have lower: "pow2 (k - 1) \<le> x"
    unfolding p1 .
  note n(3)
  also have "(of_int (n + 1) :: rat) \<le> 2 ^ nat k"
    using b(2) by (rule int_le_rat_power)
  finally have "x < pow2 k"
    unfolding p2 .
  with lower e show ?thesis by simp
next
  case False
  define c where "c = \<lceil>1 / x\<rceil>"
  define k where "k = bitlen (c - 1)"
  have y: "1 < 1 / x"
    using False assms by simp
  have c: "1 / x \<le> of_int c" "of_int (c - 1) < 1 / x"
    by (simp_all add: c_def) linarith+
  have c1: "0 < c - 1"
    using y c(1) by linarith
  have k: "1 \<le> k"
    using c1 bitlen_nonneg [of "c - 1"] bitlen_eq_zero_iff [of "c - 1"] unfolding k_def by linarith
  from bitlen_bounds [OF c1] have b: "2 ^ nat (k - 1) \<le> c - 1" "c \<le> 2 ^ nat k"
    by (simp_all add: k_def)
  have e: "floor_log2 x = - k"
    using False by (simp add: floor_log2_def c_def k_def)
  have p1: "pow2 (- k) = 1 / 2 ^ nat k" and p2: "pow2 (- k + 1) = 1 / 2 ^ nat (k - 1)"
    using k by (simp_all add: pow2_neg_exp)
  note c(1)
  also have "(of_int c :: rat) \<le> 2 ^ nat k"
    using b(2) by (rule int_le_rat_power)
  finally have "1 / x \<le> 2 ^ nat k" .
  then have "1 / 2 ^ nat k \<le> x"
    using assms by (simp add: field_simps)
  then have lower: "pow2 (- k) \<le> x"
    unfolding p1 .
  have "(2 :: rat) ^ nat (k - 1) \<le> of_int (c - 1)"
    using b(1) by (rule rat_power_le_int)
  also note c(2)
  finally have "2 ^ nat (k - 1) < 1 / x" .
  then have "x < 1 / 2 ^ nat (k - 1)"
    using assms by (simp add: field_simps)
  then have "x < pow2 (- k + 1)"
    unfolding p2 .
  with lower e show ?thesis by simp
qed

lemma round_half_even_nearest: "\<bar>of_int (round_half_even x) - x\<bar> \<le> 1 / 2"
proof -
  have "of_int \<lfloor>x\<rfloor> \<le> x" "x < of_int \<lfloor>x\<rfloor> + 1"
    by linarith+
  then show ?thesis
    by (auto simp: round_half_even_def Let_def abs_le_iff)
qed

text \<open>Rounding keeps a number between 0 and 1 there; no overflow arises.\<close>

lemma round_half_even_le:
  assumes "x \<le> of_int n"
  shows "round_half_even x \<le> n"
proof -
  have f: "\<lfloor>x\<rfloor> \<le> n"
    using assms by (simp add: floor_le_iff) 
  show ?thesis
  proof (cases "\<lfloor>x\<rfloor> = n")
    case True
    with assms have "x - of_int \<lfloor>x\<rfloor> \<le> 0"
      by simp
    then show ?thesis
      using True by (simp add: round_half_even_def Let_def)
  next
    case False
    with f have "\<lfloor>x\<rfloor> + 1 \<le> n"
      by simp
    then show ?thesis
      by (simp add: round_half_even_def Let_def)
  qed
qed

lemma round_half_even_nonneg:
  assumes "0 \<le> x"
  shows "0 \<le> round_half_even x"
proof -
  have "0 \<le> \<lfloor>x\<rfloor>"
    using assms by simp
  then show ?thesis
    by (simp add: round_half_even_def Let_def)
qed

lemma floor_log2_unit:
  assumes "0 < x" "x \<le> 1"
  shows "floor_log2 x \<le> 0"
proof (cases "1 \<le> x")
  case True
  with assms have "x = 1" by simp
  then show ?thesis
    by (simp add: floor_log2_def) (subst compute_bitlen, simp)
next
  case False
  then show ?thesis
    by (simp add: floor_log2_def bitlen_nonneg)
qed

lemma rnd_unit:
  assumes "0 \<le> x" "x \<le> 1"
  shows "0 \<le> rnd x \<and> rnd x \<le> 1"
proof (cases "x = 0")
  case True
  then show ?thesis
    by (simp add: rnd_def)
next
  case False
  with assms have pos: "0 < x" by simp
  define e where "e = max (floor_log2 x) (- 1022)"
  define m where "m = round_half_even (x * pow2 (52 - e))"
  have e: "e \<le> 0"
    using floor_log2_unit [OF pos assms(2)] by (simp add: e_def)
  have r: "rnd x = of_int m * pow2 (e - 52)"
    using pos by (simp add: rnd_def e_def m_def Let_def)
  have p: "pow2 (52 - e) = of_int (2 ^ nat (52 - e))"
    using e by (simp add: pow2_def)
  have "x * pow2 (52 - e) \<le> of_int (2 ^ nat (52 - e))"
    using assms(2) pow2_pos [of "52 - e"] unfolding p [symmetric]
    by (simp add: mult_le_cancel_right1)
  then have "m \<le> 2 ^ nat (52 - e)"
    unfolding m_def by (rule round_half_even_le)
  then have "(of_int m :: rat) \<le> pow2 (52 - e)"
    unfolding p by (simp only: of_int_le_iff)
  then have "of_int m * pow2 (e - 52) \<le> pow2 (52 - e) * pow2 (e - 52)"
    using pow2_pos [of "e - 52"] by (simp add: mult_le_cancel_right)
  also have "\<dots> = 1"
    using pow2_inverse [of "52 - e"] by simp
  finally have up: "rnd x \<le> 1"
    by (simp add: r)
  have "0 \<le> x * pow2 (52 - e)"
    using pos pow2_pos [of "52 - e"] by simp
  then have "0 \<le> m"
    unfolding m_def by (rule round_half_even_nonneg)
  then have "0 \<le> rnd x"
    using pow2_pos [of "e - 52"] by (simp add: r)
  with up show ?thesis by simp
qed

lemma rnd_minus: "rnd (- x) = - rnd x"
  by (simp add: rnd_def Let_def)

lemma round_double_unit:
  assumes "\<bar>x\<bar> \<le> 1"
  shows "round_double x = Fin (rnd x) \<and> \<bar>rnd x\<bar> \<le> 1"
proof -
  have b: "\<bar>rnd x\<bar> \<le> 1"
  proof (cases "0 \<le> x")
    case True
    with assms rnd_unit [of x] show ?thesis by simp
  next
    case False
    with assms rnd_unit [of "- x"] show ?thesis
      by (simp add: rnd_minus)
  qed
  have "(1 :: rat) < pow2 1024"
    by (simp add: pow2_def)
  with b show ?thesis
    by (auto simp: round_double_def Let_def)
qed

text \<open>
  The products and differences of lines 199 to 204: with operands between 0 and 1 the
  rounded result is finite and again between 0 and 1.
\<close>

lemma float_mul_unit:
  assumes "0 \<le> a" "a \<le> 1" "0 \<le> b" "b \<le> 1"
  shows "round_double (a * b) = Fin (float_mul a b) \<and> 0 \<le> float_mul a b \<and> float_mul a b \<le> 1"
proof -
  have "0 \<le> a * b" "a * b \<le> 1"
    using assms by (simp_all add: mult_le_one)
  with rnd_unit [of "a * b"] round_double_unit [of "a * b"] show ?thesis
    by (simp add: float_mul_def)
qed

lemma float_sub_unit:
  assumes "0 \<le> p" "p \<le> 1"
  shows "round_double (1 - p) = Fin (float_sub 1 p) \<and> 0 \<le> float_sub 1 p \<and> float_sub 1 p \<le> 1"
  using assms rnd_unit [of "1 - p"] round_double_unit [of "1 - p"]
  by (simp add: float_sub_def)

lemma float_sub_key:
  assumes "0 \<le> p" "p \<le> 1"
  shows "round_double (p - 1 / 2) = Fin (float_sub p (1 / 2))"
proof -
  have "\<bar>p - 1 / 2\<bar> \<le> 1"
    using assms by (simp add: abs_le_iff)
  with round_double_unit [of "p - 1 / 2"] show ?thesis
    by (simp add: float_sub_def)
qed

text \<open>
  The clamp yields a float between the two literals, so every collected probability and
  every partial product is between 0 and 1.
\<close>

lemma clamp_range: "lo \<le> clamp y \<and> clamp y \<le> hi"
proof -
  have "lo \<le> hi"
    by (simp add: lo_val hi_val)
  then show ?thesis
    by (cases y) (auto simp: Let_def)
qed

lemma lo_hi_unit: "0 < lo" "hi < 1"
  by (simp_all add: lo_val hi_val)

lemma collect_range:
  "collect db spam_total ham_total ws = Inr ps \<Longrightarrow> \<forall>p\<in>set ps. 0 \<le> p \<and> p \<le> 1"
proof (induction ws arbitrary: ps)
  case Nil
  then show ?case by simp
next
  case (Cons w ws)
  show ?case
  proof (cases "map_of db w")
    case None
    with Cons show ?thesis by simp
  next
    case (Some t)
    obtain d s h where t: "t = (d, s, h)" by (cases t)
    from Cons.prems Some t obtain p qs where p: "word_prob s h spam_total ham_total = Inr p"
      and qs: "collect db spam_total ham_total ws = Inr qs" and ps: "ps = p # qs"
      by (auto split: sum.splits)
    from p obtain y where "p = clamp y"
      by (auto simp: word_prob_def split: sum.splits)
    with clamp_range [of y] lo_hi_unit have "0 \<le> p \<and> p \<le> 1"
      by simp
    with Cons.IH [OF qs] ps show ?thesis by simp
  qed
qed

lemma products_unit:
  assumes "\<forall>p\<in>set ps. 0 \<le> p \<and> p \<le> 1" "0 \<le> p1" "p1 \<le> 1" "0 \<le> p2" "p2 \<le> 1"
  shows "0 \<le> fst (products (p1, p2) ps) \<and> fst (products (p1, p2) ps) \<le> 1 \<and>
         0 \<le> snd (products (p1, p2) ps) \<and> snd (products (p1, p2) ps) \<le> 1"
  using assms
proof (induction ps arbitrary: p1 p2)
  case Nil
  then show ?case by simp
next
  case (Cons p ps)
  then have p: "0 \<le> p" "p \<le> 1" by simp_all
  note a = float_mul_unit [OF Cons.prems(2,3) p]
  note c = float_sub_unit [OF p]
  from c have "0 \<le> float_sub 1 p" "float_sub 1 p \<le> 1" by simp_all
  note b = float_mul_unit [OF Cons.prems(4,5) this]
  from Cons.prems(1) have "\<forall>q\<in>set ps. 0 \<le> q \<and> q \<le> 1" by simp
  from Cons.IH [OF this, of "float_mul p1 p" "float_mul p2 (float_sub 1 p)"] a b
  show ?case by simp
qed


section \<open>The scorer\<close>

lemma totals_store: "totals (msg_db (store s h)) (map fst (msg_db (store s h))) (0, 0) = (1, 1)"
  by (simp add: store_def)

lemma text_parse_2: "text_parse ''viagra viagra'' = [''viagra'', ''viagra'']"
  by (simp add: text_parse_def re_split.simps is_word_def)

lemma text_parse_4: "text_parse ''viagra viagra viagra viagra'' = [''viagra'', ''viagra'', ''viagra'', ''viagra'']"
  by (simp add: text_parse_def re_split.simps is_word_def)

lemma process_plain: "process_mail feed (plain_mail i body) = Inr (text_parse body)"
  by (simp add: process_mail_def plain_mail_def text_parse_opt_def date_words_def)

text \<open>Per-token probabilities: 1/1 and 0/1 give the upper clamp, 3/1 and 1/1 give 0.75.\<close>

lemma word_prob_1_0: "word_prob 1 0 1 1 = Inr hi"
  by (simp add: word_prob_def float_eval split del: if_split)

lemma word_prob_3_1: "word_prob 3 1 1 1 = Inr (3 / 4)"
  by (simp add: word_prob_def float_eval split del: if_split)

lemma word_prob_0_0: "word_prob 0 0 1 1 = Inl ZeroDivisionError"
  by (simp add: word_prob_def float_eval split del: if_split)

lemma combine_1: "combine [3 / 4] = Inr (Fin (3 / 4))"
  by (simp add: combine_def float_eval split del: if_split)

lemma combine_2: "combine [3 / 4, 3 / 4] = Inr (Fin (8106479329266893 / 9007199254740992))"
  by (simp add: combine_def float_eval split del: if_split)

lemma combine_nil: "combine [] = Inr (Fin (1 / 2))"
  by (simp add: combine_def float_eval split del: if_split)

text \<open>Tokens that the store does not hold are skipped.\<close>

lemma collect_unknown:
  "\<forall>w\<in>set ws. map_of db w = None \<Longrightarrow> collect db spam_total ham_total ws = Inr []"
  by (induction ws) simp_all

lemma collect_filter:
  "collect db spam_total ham_total (filter (\<lambda>w. map_of db w \<noteq> None) ws) =
   collect db spam_total ham_total ws"
  by (induction ws) (auto split: option.splits sum.splits)

lemma select_nil: "select max_words [] = []"
  by (simp add: select_def slice_from_def slice_to_def)

lemma score_unknown:
  "\<forall>w\<in>set ws. map_of (words_db st) w = None \<Longrightarrow> score st max_words ws = Inr (Fin (1 / 2))"
  by (simp add: score_def collect_unknown select_nil combine_nil split: prod.splits)

text \<open>A message with no stored token scores 0.5, whatever the ledger.\<close>

lemma probe_unknown:
  assumes "process_mail feed m = Inr ws" and "\<forall>w\<in>set ws. map_of (words_db st) w = None"
  shows "probe feed st m max_words = Inr (Fin (1 / 2))"
  using assms by (simp add: probe_def score_unknown)

text \<open>With a zero total, the first stored token raises in line 190 or 191.\<close>

lemma int_truediv_error:
  "int_truediv a b = Inl e \<Longrightarrow> e = ZeroDivisionError \<or> e = OverflowError"
  by (auto simp: int_truediv_def split: if_splits pyfloat.splits)

lemma word_prob_zero_total:
  assumes "spam_total = 0 \<or> ham_total = 0"
  shows "word_prob spam_no ham_no spam_total ham_total = Inl ZeroDivisionError \<or>
         word_prob spam_no ham_no spam_total ham_total = Inl OverflowError"
proof (cases "spam_total = 0")
  case True
  then show ?thesis
    by (simp add: word_prob_def int_truediv_def)
next
  case False
  with assms have h: "int_truediv ham_no ham_total = Inl ZeroDivisionError"
    by (simp add: int_truediv_def)
  show ?thesis
  proof (cases "int_truediv spam_no spam_total")
    case (Inl e)
    with int_truediv_error [OF Inl] show ?thesis
      by (auto simp: word_prob_def)
  next
    case (Inr p)
    with h show ?thesis
      by (simp add: word_prob_def)
  qed
qed

lemma collect_zero_total:
  assumes "spam_total = 0 \<or> ham_total = 0" and "\<exists>w\<in>set ws. map_of db w \<noteq> None"
  shows "collect db spam_total ham_total ws = Inl ZeroDivisionError \<or>
         collect db spam_total ham_total ws = Inl OverflowError"
  using assms(2)
proof (induction ws)
  case Nil
  then show ?case by simp
next
  case (Cons w ws)
  show ?case
  proof (cases "map_of db w")
    case None
    with Cons show ?thesis by simp
  next
    case (Some t)
    obtain d s h where t: "t = (d, s, h)" by (cases t)
    from word_prob_zero_total [OF assms(1), of s h] Some t show ?thesis
      by auto
  qed
qed

text \<open>
  C4 (amended). The claim: probing against a ledger with no spam or no ham message always
  fails and never returns a value. The code has no check of the totals; it divides by
  them once for every extracted token that the store holds. So, with a zero total,
  \<^verbatim>\<open>probe\<close> raises exactly when some extracted token is in the token store
  (ZeroDivisionError, or OverflowError when the spam quotient of line 190 overflows
  first), and returns 0.5 when none is.
\<close>

theorem C4_zero_totals:
  assumes "totals (msg_db st) (map fst (msg_db st)) (0, 0) = (spam_total, ham_total)"
    and "spam_total = 0 \<or> ham_total = 0"
    and "process_mail feed m = Inr ws"
  shows "if \<exists>w\<in>set ws. map_of (words_db st) w \<noteq> None
         then probe feed st m max_words = Inl ZeroDivisionError \<or>
              probe feed st m max_words = Inl OverflowError
         else probe feed st m max_words = Inr (Fin (1 / 2))"
proof (cases "\<exists>w\<in>set ws. map_of (words_db st) w \<noteq> None")
  case True
  from collect_zero_total [OF assms(2) True] assms(1,3) True show ?thesis
    by (auto simp: probe_def score_def)
next
  case False
  then have "\<forall>w\<in>set ws. map_of (words_db st) w = None"
    by blast
  then have "score st max_words ws = Inr (Fin (1 / 2))"
    by (rule score_unknown)
  with False assms(3) show ?thesis
    by (simp add: probe_def)
qed

theorem C4_zero_totals_witness:
  "probe no_markup \<lparr>words_db = [(''viagra'', (738000, 1, 0))], msg_db = []\<rparr>
     (plain_mail ''<3@x>'' ''viagra'') 20 = Inl ZeroDivisionError \<or>
   probe no_markup \<lparr>words_db = [(''viagra'', (738000, 1, 0))], msg_db = []\<rparr>
     (plain_mail ''<3@x>'' ''viagra'') 20 = Inl OverflowError"
proof -
  let ?st = "\<lparr>words_db = [(''viagra'', (738000 :: int, 1 :: int, 0 :: int))], msg_db = []\<rparr>"
  have t: "totals (msg_db ?st) (map fst (msg_db ?st)) (0, 0) = (0, 0)"
    by simp
  have p: "process_mail no_markup (plain_mail ''<3@x>'' ''viagra'') = Inr [''viagra'']"
    by (rule process_plain_viagra)
  from C4_zero_totals [OF t _ p, of 20] show ?thesis
    by simp
qed

text \<open>
  The claim of C4 fails on the empty ledger and a message whose one token is not in the
  store: both totals are zero and \<^verbatim>\<open>probe\<close> returns 0.5.
\<close>

theorem C4_unknown_tokens_return_half:
  "totals [] (map fst []) (0, 0) = (0, 0) \<and>
   probe no_markup \<lparr>words_db = [], msg_db = []\<rparr> (plain_mail ''<3@x>'' ''viagra'') 20 = Inr (Fin (1 / 2))"
  by (simp add: probe_def process_plain score_unknown)

text \<open>Line 192 on a token with both counts zero: 0.0 / (0.0 + 0.0).\<close>

lemma word_prob_both_zero:
  assumes "spam_total \<noteq> 0" "ham_total \<noteq> 0"
  shows "word_prob 0 0 spam_total ham_total = Inl ZeroDivisionError"
  using assms by (simp add: word_prob_def int_truediv_def float_add_def float_div_def
      round_double_def rnd_0 pow2_def)

lemma collect_error_at:
  assumes "w \<in> set ws" "map_of db w = Some (d, s, h)" "word_prob s h spam_total ham_total = Inl e"
  shows "\<exists>e'. collect db spam_total ham_total ws = Inl e'"
  using assms(1)
proof (induction ws)
  case Nil
  then show ?case by simp
next
  case (Cons v ws)
  show ?case
  proof (cases "v = w")
    case True
    with assms(2,3) show ?thesis by simp
  next
    case False
    with Cons obtain e' where "collect db spam_total ham_total ws = Inl e'"
      by auto
    then show ?thesis
      by (auto split: option.splits sum.splits)
  qed
qed

text \<open>
  C5 (amended). The claim: with positive totals, a stored token with both counts zero
  yields the probability 0 and \<^verbatim>\<open>probe\<close> does not raise. The code does not treat the
  case: for such a token line 192 divides 0.0 by 0.0, which raises ZeroDivisionError, so
  \<^verbatim>\<open>probe\<close> raises and returns no value for every message that has such a token among
  its extracted tokens. No not-a-number value arises.
\<close>

theorem C5_both_counts_zero:
  assumes "totals (msg_db st) (map fst (msg_db st)) (0, 0) = (spam_total, ham_total)"
    and "spam_total \<noteq> 0" and "ham_total \<noteq> 0"
    and "process_mail feed m = Inr ws"
    and "w \<in> set ws" and "map_of (words_db st) w = Some (d, 0, 0)"
  shows "word_prob 0 0 spam_total ham_total = Inl ZeroDivisionError \<and>
         (\<exists>e. probe feed st m max_words = Inl e)"
proof -
  have z: "word_prob 0 0 spam_total ham_total = Inl ZeroDivisionError"
    using assms(2,3) by (rule word_prob_both_zero)
  from collect_error_at [OF assms(5,6) z] obtain e'
    where "collect (words_db st) spam_total ham_total ws = Inl e'" by blast
  with assms(1,4) have "probe feed st m max_words = Inl e'"
    by (simp add: probe_def score_def)
  with z show ?thesis by blast
qed

theorem C5_both_counts_zero_witness:
  "word_prob 0 0 1 1 = Inl ZeroDivisionError \<and>
   (\<exists>e. probe no_markup (store 0 0) (plain_mail ''<3@x>'' ''viagra'') 20 = Inl e)"
proof -
  have p: "process_mail no_markup (plain_mail ''<3@x>'' ''viagra'') = Inr [''viagra'']"
    by (rule process_plain_viagra)
  have w: "''viagra'' \<in> set [''viagra'']"
    by simp
  have m: "map_of (words_db (store 0 0)) ''viagra'' = Some (738000, 0, 0)"
    by (simp add: store_def)
  from C5_both_counts_zero [OF totals_store _ _ p w m, of 20] show ?thesis
    by simp
qed

text \<open>
  The claim of C5 fails on the ledger with one spam and one ham message, the store that
  holds \<^verbatim>\<open>viagra\<close> with the counts 0 and 0, and a message with that one token.
\<close>

theorem C5_probe_raises_on_zero_counts:
  "probe no_markup (store 0 0) (plain_mail ''<3@x>'' ''viagra'') 20 = Inl ZeroDivisionError"
  unfolding probe_def process_plain score_def totals_store
  by (simp add: text_parse_viagra store_def word_prob_0_0)

text \<open>
  Four factors at the upper clamp: the product \<^verbatim>\<open>p2\<close> of the complements is about
  \<open>10 ^ (- 20)\<close>, less than half a unit in the last place of \<^verbatim>\<open>p1\<close>, so \<^verbatim>\<open>p1 + p2\<close>
  rounds to \<^verbatim>\<open>p1\<close> and the quotient is 1.
\<close>

lemma combine_hi4: "combine [hi, hi, hi, hi] = Inr (Fin 1)"
  by (simp add: combine_def float_eval split del: if_split)

lemma score_4: "score (store 1 0) 20 [''viagra'', ''viagra'', ''viagra'', ''viagra''] = Inr (Fin 1)"
  unfolding score_def totals_store
  by (simp add: store_def word_prob_1_0 select_def combine_hi4)

text \<open>
  C6 (the code differs). The claim, and the docstring of \<^verbatim>\<open>probe\<close> (line 177): the value
  returned is strictly between 0 and 1. The code: on the ledger with one spam and one
  ham message, the store that holds \<^verbatim>\<open>viagra\<close> with the counts 1 and 0, and a message
  with that token four times, \<^verbatim>\<open>probe\<close> returns exactly 1.
\<close>

theorem C6_probe_returns_one:
  "probe feed (store 1 0) (plain_mail ''<3@x>'' ''viagra viagra viagra viagra'') 20 = Inr (Fin 1)"
  by (simp add: probe_def process_plain text_parse_4 score_4)

text \<open>
  The selection for a positive \<^verbatim>\<open>max_words\<close> and more than twice as many
  probabilities: the last \<^verbatim>\<open>max_words\<close> of the sorted list, then the first.
\<close>

lemma select_positive:
  assumes "0 < max_words" and "max_words * 2 < int (length all_p)"
  shows "select max_words all_p =
           drop (length all_p - nat max_words) (sort_key (\<lambda>n. float_sub n (1 / 2)) all_p) @
           take (nat max_words) (sort_key (\<lambda>n. float_sub n (1 / 2)) all_p)"
    and "length (select max_words all_p) = 2 * nat max_words"
proof -
  have n: "nat (int (length all_p) - max_words) = length all_p - nat max_words"
    using assms by linarith
  show "select max_words all_p =
           drop (length all_p - nat max_words) (sort_key (\<lambda>n. float_sub n (1 / 2)) all_p) @
           take (nat max_words) (sort_key (\<lambda>n. float_sub n (1 / 2)) all_p)"
    using assms by (simp add: select_def slice_from_def slice_to_def n Let_def)
  then show "length (select max_words all_p) = 2 * nat max_words"
    using assms by (simp add: min_def) linarith
qed

lemma select_0: "select 0 [3 / 4] = [3 / 4]"
  by (simp add: select_def slice_from_def slice_to_def)

text \<open>
  C7 (the code differs). The claim: when more than \<^verbatim>\<open>2 * max_words\<close> probabilities are
  collected, exactly \<^verbatim>\<open>2 * max_words\<close> of them enter the product. The code: for
  \<^verbatim>\<open>max_words = 0\<close> the slice \<^verbatim>\<open>all_p[-0:]\<close> is the whole list, so one collected
  probability exceeds \<^verbatim>\<open>2 * 0\<close> and still enters the product; \<^verbatim>\<open>probe\<close> returns
  0.75 where no factor would give 0.5.
\<close>

theorem C7_max_words_zero_keeps_all:
  "select 0 [3 / 4] = [3 / 4] \<and>
   probe feed (store 3 1) (plain_mail ''<3@x>'' ''viagra'') 0 = Inr (Fin (3 / 4))"
  unfolding probe_def process_plain score_def totals_store
  by (simp add: text_parse_viagra store_def word_prob_3_1 select_0 combine_1)

text \<open>
  C9 (amended). The claim: the result of \<^verbatim>\<open>probe\<close> does not change when duplicate
  occurrences of tokens are removed from the message. The code looks every occurrence up
  and collects its probability, so an occurrence of a stored token is one more factor.
  What holds: tokens that the store does not hold are skipped, so \<^verbatim>\<open>probe\<close> gives
  the same result on two messages whose extracted token sequences agree once the tokens
  absent from the store are deleted; occurrences of such tokens, duplicate or not, do
  not affect the result.
\<close>

theorem C9_known_tokens:
  assumes "process_mail feed m = Inr ws" and "process_mail feed m' = Inr ws'"
    and "filter (\<lambda>w. map_of (words_db st) w \<noteq> None) ws =
         filter (\<lambda>w. map_of (words_db st) w \<noteq> None) ws'"
  shows "probe feed st m max_words = probe feed st m' max_words"
proof -
  have "collect (words_db st) a b ws = collect (words_db st) a b ws'" for a b
    using assms(3) collect_filter [of "words_db st" a b ws] collect_filter [of "words_db st" a b ws']
    by simp
  with assms(1,2) show ?thesis
    by (simp add: probe_def score_def)
qed

lemma text_parse_hello2: "text_parse ''viagra hello hello'' = [''viagra'', ''hello'', ''hello'']"
  by (simp add: text_parse_def re_split.simps is_word_def)

lemma text_parse_hello1: "text_parse ''viagra hello'' = [''viagra'', ''hello'']"
  by (simp add: text_parse_def re_split.simps is_word_def)

theorem C9_known_tokens_witness:
  "probe no_markup (store 3 1) (plain_mail ''<3@x>'' ''viagra hello hello'') 20 =
   probe no_markup (store 3 1) (plain_mail ''<4@x>'' ''viagra hello'') 20"
proof -
  have p: "process_mail no_markup (plain_mail ''<3@x>'' ''viagra hello hello'') =
      Inr [''viagra'', ''hello'', ''hello'']"
    by (simp add: process_plain text_parse_hello2)
  have q: "process_mail no_markup (plain_mail ''<4@x>'' ''viagra hello'') = Inr [''viagra'', ''hello'']"
    by (simp add: process_plain text_parse_hello1)
  have f: "filter (\<lambda>w. map_of (words_db (store 3 1)) w \<noteq> None) [''viagra'', ''hello'', ''hello''] =
      filter (\<lambda>w. map_of (words_db (store 3 1)) w \<noteq> None) [''viagra'', ''hello'']"
    by (simp add: store_def)
  from C9_known_tokens [OF p q f] show ?thesis .
qed

text \<open>
  The claim of C9 fails on the store that holds \<^verbatim>\<open>viagra\<close> with the counts 3 and 1: the
  message with the token twice scores 0.9, the one with its duplicate removed 0.75.
\<close>

theorem C9_duplicates_change_score:
  "process_mail no_markup (plain_mail ''<3@x>'' ''viagra viagra'') = Inr [''viagra'', ''viagra''] \<and>
   process_mail no_markup (plain_mail ''<3@x>'' ''viagra'') = Inr (remdups [''viagra'', ''viagra'']) \<and>
   probe no_markup (store 3 1) (plain_mail ''<3@x>'' ''viagra viagra'') 20 =
     Inr (Fin (8106479329266893 / 9007199254740992)) \<and>
   probe no_markup (store 3 1) (plain_mail ''<3@x>'' ''viagra'') 20 = Inr (Fin (3 / 4))"
proof -
  have "score (store 3 1) 20 [''viagra'', ''viagra''] = Inr (Fin (8106479329266893 / 9007199254740992))"
    unfolding score_def totals_store
    by (simp add: store_def word_prob_3_1 select_def combine_2)
  moreover have "score (store 3 1) 20 [''viagra''] = Inr (Fin (3 / 4))"
    unfolding score_def totals_store
    by (simp add: store_def word_prob_3_1 select_def combine_1)
  ultimately show ?thesis
    by (simp add: probe_def process_plain text_parse_2 text_parse_viagra)
qed

end
